theory Spec2Isabelle
  imports Main
begin

section \<open>Command-line options (lib/options.js)\<close>

text \<open>
  The option parser is written point-free over Ramda (\<open>R\<close>) and lodash (\<open>_\<close>). Each
  library primitive it calls is given here as a function of its own, following the
  library's implementation, and the functions of the module are composed from them in
  the order of the source's pipelines. A JavaScript value that may be \<open>undefined\<close> is
  an \<open>option\<close>, with \<open>None\<close> for \<open>undefined\<close>.
\<close>

subsection \<open>Library primitives\<close>

text \<open>\<open>R.uniq\<close>: the elements in order of first occurrence, scanning against the set
  of elements already seen.\<close>

fun uniq_from :: "'a list \<Rightarrow> 'a list \<Rightarrow> 'a list" where
  "uniq_from seen [] = []"
| "uniq_from seen (x # xs) =
     (if x \<in> set seen then uniq_from seen xs else x # uniq_from (seen @ [x]) xs)"

definition uniq :: "'a list \<Rightarrow> 'a list" where
  "uniq xs = uniq_from [] xs"

text \<open>\<open>R.intersection\<close>: the longer list is the lookup list, the other one is filtered
  by membership in it, and the result is made duplicate-free.\<close>

definition intersection :: "'a list \<Rightarrow> 'a list \<Rightarrow> 'a list" where
  "intersection list1 list2 =
     (let lookupList = (if length list1 > length list2 then list1 else list2);
          filteredList = (if length list1 > length list2 then list2 else list1)
      in uniq (filter (\<lambda>x. x \<in> set lookupList) filteredList))"

text \<open>\<open>R.lastIndexOf\<close> on an array: the loop \<open>idx = xs.length - 1; while (idx >= 0)\<close>
  that returns the first index, from the right, whose element equals the target, and
  \<open>-1\<close> when it runs out.\<close>

function lastIndexOf_loop :: "'a \<Rightarrow> 'a list \<Rightarrow> int \<Rightarrow> int" where
  "lastIndexOf_loop target xs idx =
     (if idx \<ge> 0
      then (if xs ! nat idx = target then idx else lastIndexOf_loop target xs (idx - 1))
      else -1)"
  by pat_completeness auto
termination
  by (relation "measure (\<lambda>(target, xs, idx). nat (idx + 1))") auto

definition lastIndexOf :: "'a \<Rightarrow> 'a list \<Rightarrow> int" where
  "lastIndexOf target xs = lastIndexOf_loop target xs (int (length xs) - 1)"

text \<open>\<open>_.max\<close>: \<open>undefined\<close> for an empty array, otherwise the scan that replaces the
  running maximum by every strictly greater element.\<close>

fun max_lodash :: "int list \<Rightarrow> int option" where
  "max_lodash [] = None"
| "max_lodash (x # xs) = Some (foldl (\<lambda>computed current. if current > computed then current else computed) x xs)"

text \<open>\<open>R.nth\<close>: a negative offset counts from the end; reading outside the array, or
  at an \<open>undefined\<close> offset, gives \<open>undefined\<close>.\<close>

fun nth_ramda :: "int option \<Rightarrow> 'a list \<Rightarrow> 'a option" where
  "nth_ramda None xs = None"
| "nth_ramda (Some offset) xs =
     (let idx = (if offset < 0 then int (length xs) + offset else offset)
      in if 0 \<le> idx \<and> idx < int (length xs) then Some (xs ! nat idx) else None)"

text \<open>\<open>_.compact\<close> on an array of strings and \<open>undefined\<close>s: the falsy entries, which
  are \<open>undefined\<close> and the empty string, are removed.\<close>

fun compact :: "string option list \<Rightarrow> string list" where
  "compact [] = []"
| "compact (None # vs) = compact vs"
| "compact (Some s # vs) = (if s = [] then compact vs else s # compact vs)"

subsection \<open>The module's functions\<close>

text \<open>\<open>isOption = R.curry(R.pipe(R.intersection, R.isEmpty, R.not))\<close>.\<close>

definition isOption :: "string list \<Rightarrow> string list \<Rightarrow> bool" where
  "isOption keys args = (\<not> (intersection keys args = []))"

text \<open>\<open>parseOption\<close>: when some key occurs, every key is mapped to its last index plus
  one (\<open>0\<close> for a key that does not occur), the maximum is taken and the argument at
  that position is read; \<open>undefined\<close> otherwise.\<close>

definition parseOption :: "string list \<Rightarrow> string list \<Rightarrow> string option" where
  "parseOption keys args =
     (if isOption keys args
      then nth_ramda (max_lodash (map (\<lambda>key. lastIndexOf key args + 1) keys)) args
      else None)"

text \<open>\<open>allIndicesOf\<close>: \<open>R.pickBy(R.equals(key))\<close> keeps the entries of the array equal
  to the key under their indices, \<open>R.keys\<close> lists those indices in ascending order and
  \<open>Number\<close> reads them back as numbers.\<close>

definition allIndicesOf :: "string \<Rightarrow> string list \<Rightarrow> nat list" where
  "allIndicesOf key args = filter (\<lambda>i. args ! i = key) [0..<length args]"

text \<open>\<open>parseOptionsMultiple\<close>: the indices of every key, flattened in the order of the
  keys, each replaced by the argument after it, and the result compacted.\<close>

definition parseOptionsMultiple :: "string list \<Rightarrow> string list \<Rightarrow> string list" where
  "parseOptionsMultiple keys args =
     compact (map (\<lambda>idx. nth_ramda (Some (int idx + 1)) args)
                  (concat (map (\<lambda>key. allIndicesOf key args) keys)))"

text \<open>What one occurrence at index \<open>i\<close> leaves in the result of
  \<open>parseOptionsMultiple\<close>: the argument after it, unless there is none or it is the
  empty string (a name for the proofs; the source has no such function).\<close>

definition following :: "string list \<Rightarrow> nat \<Rightarrow> string list" where
  "following args i = (if Suc i < length args \<and> args ! Suc i \<noteq> [] then [args ! Suc i] else [])"

section \<open>JSON documents (lib/objects.js)\<close>

text \<open>
  A parsed JSON value. An object is the list of its entries in insertion order; the
  objects that \<open>JSON.parse\<close> and the merge build have pairwise distinct keys, and an
  entry is read by \<open>map_of\<close>. (JavaScript enumerates the keys that are array indices
  before the others; the properties below read objects by their keys, and the objects
  of the examples have no such key.) Numbers are opaque to every function of the module
  and stand here as integers. A JavaScript value that may be \<open>undefined\<close> is a
  \<open>json option\<close>.
\<close>

datatype json = JNull | JBool bool | JNum int | JStr string | JArr "json list"
  | JObj "(string \<times> json) list"

text \<open>A thrown JavaScript error, with its \<open>name\<close> and its \<open>message\<close>.\<close>

datatype error = Error string string

fun err_name :: "error \<Rightarrow> string" where
  "err_name (Error n m) = n"

fun err_message :: "error \<Rightarrow> string" where
  "err_message (Error n m) = m"

text \<open>\<open>R.isNil\<close>: \<open>undefined\<close> or \<open>null\<close>.\<close>

fun isNil :: "json option \<Rightarrow> bool" where
  "isNil None = True"
| "isNil (Some JNull) = True"
| "isNil (Some v) = False"

text \<open>Ramda's \<open>_isObject\<close>: the value prints as \<open>[object Object]\<close>, which an array, a
  string, a number, a boolean and \<open>null\<close> do not.\<close>

fun isObject :: "json \<Rightarrow> bool" where
  "isObject (JObj kvs) = True"
| "isObject v = False"

text \<open>The decimal numeral of an array index, which is the property key of the element.\<close>

function decimal :: "nat \<Rightarrow> string" where
  "decimal n = (if n < 10 then [char_of (48 + n)] else decimal (n div 10) @ [char_of (48 + n mod 10)])"
  by pat_completeness auto
termination
  by (relation "measure (\<lambda>n. n)") auto

text \<open>The own enumerable properties of a value, as \<open>for (k in v)\<close> under the guard
  \<open>_has(k, v)\<close> visits them: the entries of an object, the elements of an array and the
  characters of a string under their indices, and nothing for \<open>undefined\<close>, \<open>null\<close>, a
  number or a boolean.\<close>

fun entries :: "json option \<Rightarrow> (string \<times> json) list" where
  "entries (Some (JObj kvs)) = kvs"
| "entries (Some (JArr vs)) = zip (map decimal [0..<length vs]) vs"
| "entries (Some (JStr s)) = zip (map decimal [0..<length s]) (map (\<lambda>c. JStr [c]) s)"
| "entries v = []"

text \<open>
  \<open>R.mergeDeepLeft\<close> on two plain objects. It is \<open>mergeDeepWithKey\<close> with the function
  that returns the left value, over \<open>mergeWithKey\<close>, which fills a fresh object \<open>result\<close>
  by assignments \<open>result[k] = ...\<close>: first for every key of the left object, with the
  left value, or, when the right object has the key too and both values are plain
  objects, with their merge; then for every entry of the right object whose key
  \<open>result\<close> does not have yet. An assignment under the key \<open>__proto__\<close> runs the setter of
  \<open>Object.prototype\<close>: it changes the prototype of \<open>result\<close>, or nothing, and adds no own
  property, so an entry under that key (which \<open>JSON.parse\<close> makes an own property) is
  not in the result. The recursion only ever meets two plain objects; the last equation
  stands for the other shapes, which it never meets.
\<close>

fun mergeDeepLeft_obj :: "json \<Rightarrow> json \<Rightarrow> json" where
  "mergeDeepLeft_obj (JObj l) (JObj r) =
     (let result = filter (\<lambda>(k, v). k \<noteq> ''__proto__'')
                     (map (\<lambda>(k, lVal). (k, case map_of r k of
                                   None \<Rightarrow> lVal
                                 | Some rVal \<Rightarrow> if isObject lVal \<and> isObject rVal
                                                then mergeDeepLeft_obj lVal rVal else lVal)) l)
      in JObj (result @ filter (\<lambda>(k, v). k \<noteq> ''__proto__'')
                          (filter (\<lambda>(k, rVal). k \<notin> set (map fst result)) r)))"
| "mergeDeepLeft_obj l r = l"

text \<open>
  \<open>R.mergeDeepLeft\<close> as the module calls it, on any two values. \<open>mergeWithKey\<close> does not
  look at the shape of its arguments: it loops over their own enumerable properties,
  and the result is always a fresh plain object. Its test \<open>_has(k, r)\<close>, made for the
  first key of the left value, is \<open>Object.prototype.hasOwnProperty.call(r, k)\<close> and
  throws a \<open>TypeError\<close> when the right value is \<open>undefined\<close> or \<open>null\<close>. (The
  \<open>length\<close> of an array or a string is an own property that is not enumerable; its
  value is a number, so a left key \<open>length\<close> keeps the left value, as it does here
  where the key is not found.)
\<close>

definition mergeDeepLeft :: "json option \<Rightarrow> json option \<Rightarrow> error + json" where
  "mergeDeepLeft l r =
     (if entries l \<noteq> [] \<and> isNil r
      then Inl (Error ''TypeError'' ''Cannot convert undefined or null to object'')
      else Inr (mergeDeepLeft_obj (JObj (entries l)) (JObj (entries r))))"

section \<open>Files and the console\<close>

text \<open>
  What the module reads of the world: the file system (a path holds nothing, a file
  with its text, or something that cannot be read, such as a directory, with the error
  that reading it throws), and the two functions \<open>JSON.minify\<close> and \<open>JSON.parse\<close>, the
  second of which throws on a text that is not JSON. \<open>unwritable\<close> says how writing to a
  path fails, if it does: before the file is opened (no permission, no such directory),
  or after the file was opened, which has created or truncated it, with the number of
  characters that were written. Every function that prints returns the lines it passes
  to \<open>console.log\<close>, in order, next to its value.
\<close>

datatype node = File string | Unreadable error

datatype write_failure = BeforeOpen error | AfterOpen error nat

record env =
  files :: "string \<Rightarrow> node option"
  minify :: "string \<Rightarrow> string"
  parse :: "string \<Rightarrow> error + json"
  unwritable :: "string \<Rightarrow> write_failure option"

definition quoted :: "string \<Rightarrow> string" where
  "quoted s = [CHR 0x27] @ s @ [CHR 0x27]"

text \<open>\<open>fs.existsSync\<close>, which is \<open>false\<close> for \<open>undefined\<close>.\<close>

fun existsSync :: "env \<Rightarrow> string option \<Rightarrow> bool" where
  "existsSync e None = False"
| "existsSync e (Some p) = (case files e p of None \<Rightarrow> False | Some n \<Rightarrow> True)"

text \<open>\<open>fs.readFileSync(path, 'utf8')\<close>, which throws \<open>ENOENT\<close> for a path that holds
  nothing.\<close>

definition readFileSync :: "env \<Rightarrow> string \<Rightarrow> error + string" where
  "readFileSync e p =
     (case files e p of
        None \<Rightarrow> Inl (Error ''Error'' (''ENOENT: no such file or directory, open '' @ quoted p))
      | Some (Unreadable err) \<Rightarrow> Inl err
      | Some (File s) \<Rightarrow> Inr s)"

text \<open>The three stages \<open>fs.readFileSync\<close>, \<open>JSON.minify\<close>, \<open>JSON.parse\<close> with which the
  pipelines of \<open>parseObject\<close> and of the reducer of \<open>parseObjects\<close> both start.\<close>

definition readJSON :: "env \<Rightarrow> string \<Rightarrow> error + json" where
  "readJSON e objPath =
     (case readFileSync e objPath of
        Inl err \<Rightarrow> Inl err
      | Inr s \<Rightarrow> parse e (minify e s))"

text \<open>The line that the handlers of \<open>parseObject\<close> and \<open>parseObjects\<close> print:
  \<open>`${err.name}: ${err.message}. <File: '${objPath}'>`\<close>.\<close>

definition diagnostic :: "error \<Rightarrow> string \<Rightarrow> string" where
  "diagnostic err objPath =
     err_name err @ '': '' @ err_message err @ ''. <File: '' @ quoted objPath @ ''>''"

subsection \<open>The module's functions\<close>

text \<open>\<open>parseObject\<close>: \<open>R.tryCatch\<close> around the three stages; the handler prints the
  diagnostic and returns \<open>undefined\<close>.\<close>

definition parseObject :: "env \<Rightarrow> string \<Rightarrow> json option \<times> string list" where
  "parseObject e objPath =
     (case readJSON e objPath of
        Inl err \<Rightarrow> (None, [diagnostic err objPath])
      | Inr v \<Rightarrow> (Some v, []))"

text \<open>\<open>getDefaultObject = R.ifElse(fs.existsSync, parseObject, R.always(undefined))\<close>.\<close>

fun getDefaultObject :: "env \<Rightarrow> string option \<Rightarrow> json option \<times> string list" where
  "getDefaultObject e None = (None, [])"
| "getDefaultObject e (Some p) = (if existsSync e (Some p) then parseObject e p else (None, []))"

text \<open>\<open>getObjectOverDefault\<close>: the path is the value of the option; when it is not nil
  the file is parsed, and the default is read when the result is nil; when the path is
  nil the default is read.\<close>

definition getObjectOverDefault ::
  "env \<Rightarrow> string option \<Rightarrow> string list \<Rightarrow> string list \<Rightarrow> json option \<times> string list" where
  "getObjectOverDefault e defaultValue keys args =
     (case parseOption keys args of
        Some objPath \<Rightarrow>
          (case parseObject e objPath of (obj, printed) \<Rightarrow>
             if isNil obj
             then (case getDefaultObject e defaultValue of (d, printed') \<Rightarrow> (d, printed @ printed'))
             else (obj, printed))
      | None \<Rightarrow> getDefaultObject e defaultValue)"

text \<open>The reducer of \<open>parseObjects\<close>: \<open>R.tryCatch\<close> around the three stages followed by
  \<open>R.mergeDeepLeft(obj)\<close>; the handler prints the diagnostic and returns the
  accumulator \<open>obj\<close>.\<close>

definition reducer :: "env \<Rightarrow> json option \<times> string list \<Rightarrow> string \<Rightarrow> json option \<times> string list" where
  "reducer e acc objPath =
     (case acc of (obj, printed) \<Rightarrow>
        (case readJSON e objPath of
           Inl err \<Rightarrow> (obj, printed @ [diagnostic err objPath])
         | Inr v \<Rightarrow>
             (case mergeDeepLeft obj (Some v) of
                Inl err \<Rightarrow> (obj, printed @ [diagnostic err objPath])
              | Inr merged \<Rightarrow> (Some merged, printed))))"

text \<open>\<open>parseObjects = R.ifElse(R.complement(R.isEmpty), R.reduce(..., undefined),
  R.always(undefined))\<close>.\<close>

definition parseObjects :: "env \<Rightarrow> string list \<Rightarrow> json option \<times> string list" where
  "parseObjects e objPaths =
     (if objPaths \<noteq> [] then foldl (reducer e) (None, []) objPaths else (None, []))"

text \<open>\<open>getDefaultObjects = R.pipe(R.filter(fs.existsSync), parseObjects)\<close>; an entry of
  the list is \<open>undefined\<close> when \<open>setDefault\<close> did not find the file.\<close>

definition getDefaultObjects :: "env \<Rightarrow> string option list \<Rightarrow> json option \<times> string list" where
  "getDefaultObjects e defaultValues =
     parseObjects e (concat (map (\<lambda>d. case d of None \<Rightarrow> [] | Some p \<Rightarrow> [p])
                                 (filter (existsSync e) defaultValues)))"

text \<open>\<open>getObjects\<close>: the files of the option are merged; when the result is not nil the
  defaults are merged and, when they are not nil either, put under it by
  \<open>R.mergeDeepLeft(parsedObjects)\<close>, which no handler surrounds; when the result is nil
  the merged defaults are returned.\<close>

definition getObjects ::
  "env \<Rightarrow> string option list \<Rightarrow> string list \<Rightarrow> string list \<Rightarrow> (error + json option) \<times> string list" where
  "getObjects e defaultValues keys args =
     (case parseObjects e (parseOptionsMultiple keys args) of (parsedObjects, printed) \<Rightarrow>
        if \<not> isNil parsedObjects
        then (case getDefaultObjects e defaultValues of (defaults, printed') \<Rightarrow>
                if \<not> isNil defaults
                then (case mergeDeepLeft parsedObjects defaults of
                        Inl err \<Rightarrow> (Inl err, printed @ printed')
                      | Inr merged \<Rightarrow> (Inr (Some merged), printed @ printed'))
                else (Inr parsedObjects, printed @ printed'))
        else (case getDefaultObjects e defaultValues of (defaults, printed') \<Rightarrow>
                (Inr defaults, printed @ printed')))"

subsection \<open>The merge of a list of files, in the words of the specification\<close>


text \<open>What the accumulator of the fold is at every step: nothing, or a plain object
  without an entry named \<open>__proto__\<close> (a name for the proofs).\<close>

fun merged :: "json option \<Rightarrow> bool" where
  "merged None = True"
| "merged (Some (JObj kvs)) = (''__proto__'' \<notin> set (map fst kvs))"
| "merged (Some v) = False"

section \<open>Writing and printing the diagram (lib/commands.js)\<close>

text \<open>\<open>fs.writeFileSync(path, data)\<close>, with the error it throws, if any, and the file
  system it leaves: a \<open>TypeError\<close> for an \<open>undefined\<close> path; for a path that cannot be
  written the error of the file system, the file being left as it was when the failure
  comes before the open, and holding what was written when it comes after (the open, with
  flag \<open>w\<close>, creates or truncates the file); otherwise the path holds the data.\<close>

definition writeFileSync :: "env \<Rightarrow> string option \<Rightarrow> string \<Rightarrow> error option \<times> env" where
  "writeFileSync e path contents =
     (case path of
        None \<Rightarrow> (Some (Error ''TypeError''
                 (''The '' @ [CHR 0x22] @ ''path'' @ [CHR 0x22] @
                  '' argument must be of type string or an instance of Buffer or URL. Received undefined'')),
                 e)
      | Some p \<Rightarrow>
          (case unwritable e p of
             Some (BeforeOpen err) \<Rightarrow> (Some err, e)
           | Some (AfterOpen err n) \<Rightarrow> (Some err, e\<lparr>files := (files e)(p \<mapsto> File (take n contents))\<rparr>)
           | None \<Rightarrow> (None, e\<lparr>files := (files e)(p \<mapsto> File contents)\<rparr>)))"

text \<open>\<open>output\<close> (named \<open>output_svg\<close> here): \<open>R.tryCatch\<close> around the write of the text
  of the diagram to the value of \<open>-o\<close>/\<open>--output\<close>; the handler prints
  \<open>`${err.name}: ${err.message}. Diagram was not generated.`\<close>. The argument \<open>svg\<close> is
  the text \<open>diagram.svg.svg()\<close> of the generated diagram.\<close>

definition output_svg :: "env \<Rightarrow> string list \<Rightarrow> string \<Rightarrow> env \<times> string list" where
  "output_svg e args svg =
     (case writeFileSync e (parseOption [''-o'', ''--output''] args) svg of
        (Some err, e') \<Rightarrow> (e', [err_name err @ '': '' @ err_message err @ ''. Diagram was not generated.''])
      | (None, e') \<Rightarrow> (e', []))"

text \<open>The function that \<open>diagram\<close> passes to \<open>then\<close> on the promise of \<open>generate()\<close>:
  \<open>R.cond\<close> runs the transformer of the first pair whose predicate holds, and no other.\<close>

definition diagram_then :: "env \<Rightarrow> string list \<Rightarrow> string \<Rightarrow> env \<times> string list" where
  "diagram_then e args svg =
     (if isOption [''-o'', ''--output''] args then output_svg e args svg
      else if isOption [''-w'', ''--write''] args then (e, [svg])
      else (e, []))"

text \<open>\<open>applyCommands\<close>, as the command that \<open>R.cond\<close> selects: help before version
  before the diagram, and help when none of the three options is given.\<close>

datatype command = Help | Version | Diagram

definition applyCommands :: "string list \<Rightarrow> command" where
  "applyCommands args =
     (if isOption [''-h'', ''--help''] args then Help
      else if isOption [''-v'', ''--version''] args then Version
      else if isOption [''-d'', ''--diagram''] args then Diagram
      else Help)"

section \<open>A small world for the examples\<close>

text \<open>
  Style files, of which \<open>bad.json\<close> holds a text that is not JSON and \<open>proto.json\<close> a
  document with an entry named \<open>__proto__\<close>, a default configuration, and two output
  paths that cannot be written. \<open>JSON.parse\<close> is given on the texts of these files only,
  which are abbreviated here (the quotation marks of the JSON texts are left out).
\<close>

definition example_parse :: "string \<Rightarrow> error + json" where
  "example_parse s =
     (if s = ''{a:1,c:{x:d1}}'' then Inr (JObj [(''a'', JStr ''1''), (''c'', JObj [(''x'', JStr ''d1'')])])
      else if s = ''{b:2,c:{y:d2}}'' then Inr (JObj [(''b'', JStr ''2''), (''c'', JObj [(''y'', JStr ''d2'')])])
      else if s = ''{a:3,b:3,e:3}'' then Inr (JObj [(''a'', JStr ''3''), (''b'', JStr ''3''), (''e'', JStr ''3'')])
      else if s = ''{e:4,f:4}'' then Inr (JObj [(''e'', JStr ''4''), (''f'', JStr ''4'')])
      else if s = ''{f:5,g:5}'' then Inr (JObj [(''f'', JStr ''5''), (''g'', JStr ''5'')])
      else if s = ''{a:1,__proto__:{x:1}}''
        then Inr (JObj [(''a'', JStr ''1''), (''__proto__'', JObj [(''x'', JStr ''1'')])])
      else if s = ''{tex:{}}'' then Inr (JObj [(''tex'', JObj [])])
      else Inl (Error ''SyntaxError'' ''Unexpected end of JSON input''))"

definition example_env :: env where
  "example_env =
     \<lparr> files = map_of [(''st1.json'', File ''{a:1,c:{x:d1}}''),
                       (''st2.json'', File ''{b:2,c:{y:d2}}''),
                       (''st3.json'', File ''{a:3,b:3,e:3}''),
                       (''st4.json'', File ''{e:4,f:4}''),
                       (''st5.json'', File ''{f:5,g:5}''),
                       (''proto.json'', File ''{a:1,__proto__:{x:1}}''),
                       (''bad.json'', File ''{''),
                       (''mathjax_config.json'', File ''{tex:{}}'')],
       minify = (\<lambda>s. s),
       parse = example_parse,
       unwritable = (\<lambda>p. if p = ''out.svg''
                          then Some (BeforeOpen (Error ''Error'' (''EACCES: permission denied, open '' @ quoted p)))
                          else if p = ''full.svg''
                          then Some (AfterOpen (Error ''Error'' ''ENOSPC: no space left on device, write'') 2)
                          else None) \<rparr>"

section \<open>Properties of the option parser\<close>

subsection \<open>Presence of an option\<close>

lemma uniq_from_empty: "uniq_from seen xs = [] \<longleftrightarrow> set xs \<subseteq> set seen"
  by (induction xs arbitrary: seen) auto

lemma isOption_iff: "isOption keys args \<longleftrightarrow> (\<exists>k \<in> set keys. k \<in> set args)"
  by (auto simp: isOption_def intersection_def uniq_def uniq_from_empty Let_def)

subsection \<open>The last index of a key\<close>

lemma lastIndexOf_loop_unfold:
  "lastIndexOf_loop t xs (int (Suc n) - 1) =
     (if xs ! n = t then int n else lastIndexOf_loop t xs (int n - 1))"
  by (subst lastIndexOf_loop.simps) simp

lemma lastIndexOf_loop_start: "lastIndexOf_loop t xs (int 0 - 1) = -1"
  by (subst lastIndexOf_loop.simps) simp

lemma lastIndexOf_loop_prefix:
  "lastIndexOf_loop t xs (int n - 1) =
     (if \<exists>i<n. xs ! i = t then int (Max {i. i < n \<and> xs ! i = t}) else -1)"
proof (induction n)
  case 0
  show ?case unfolding lastIndexOf_loop_start by simp
next
  case (Suc n)
  show ?case
  proof (cases "xs ! n = t")
    case True
    have "Max {i. i < Suc n \<and> xs ! i = t} = n"
      by (rule Max_eqI) (use True in auto)
    moreover have "\<exists>i<Suc n. xs ! i = t" using True by blast
    ultimately show ?thesis unfolding lastIndexOf_loop_unfold using True by simp
  next
    case False
    have same: "{i. i < Suc n \<and> xs ! i = t} = {i. i < n \<and> xs ! i = t}"
      using False less_Suc_eq by auto
    have ex: "(\<exists>i<Suc n. xs ! i = t) = (\<exists>i<n. xs ! i = t)"
      using False less_Suc_eq by auto
    show ?thesis unfolding lastIndexOf_loop_unfold same ex using False Suc.IH by simp
  qed
qed

lemma lastIndexOf_eq:
  "lastIndexOf t xs =
     (if t \<in> set xs then int (Max {i. i < length xs \<and> xs ! i = t}) else -1)"
  unfolding lastIndexOf_def lastIndexOf_loop_prefix by (simp add: in_set_conv_nth)


subsection \<open>The maximum of the positions\<close>

lemma foldl_max_scan:
  "foldl (\<lambda>computed current. if current > computed then current else computed) (m::int) xs
     = Max (insert m (set xs))"
proof (induction xs arbitrary: m)
  case Nil
  show ?case by simp
next
  case (Cons x xs)
  have "Max (insert (if m < x then x else m) (set xs)) = Max (insert m (insert x (set xs)))"
  proof (cases "set xs = {}")
    case True
    then show ?thesis by (simp add: max_def)
  next
    case False
    have "Max (insert m (insert x (set xs))) = max m (max x (Max (set xs)))"
      using False by simp
    moreover have "Max (insert (if m < x then x else m) (set xs)) = max (if m < x then x else m) (Max (set xs))"
      using False by simp
    ultimately show ?thesis by (simp add: max_def)
  qed
  then show ?case using Cons.IH[of "if m < x then x else m"] by simp
qed

lemma max_lodash_Max: "xs \<noteq> [] \<Longrightarrow> max_lodash xs = Some (Max (set xs))"
  by (cases xs) (simp_all add: foldl_max_scan)


lemma parseOption_position:
  assumes occ: "\<exists>k \<in> set keys. k \<in> set args"
  shows "max_lodash (map (\<lambda>key. lastIndexOf key args + 1) keys) =
         Some (int (Max {i. i < length args \<and> args ! i \<in> set keys}) + 1)"
proof -
  define S where "S = {i. i < length args \<and> args ! i \<in> set keys}"
  define p where "p = Max S"
  define vs where "vs = map (\<lambda>key. lastIndexOf key args + 1) keys"
  have fin: "finite S" unfolding S_def by simp
  from occ obtain k i where "k \<in> set keys" "i < length args" "args ! i = k"
    by (auto simp: in_set_conv_nth)
  then have ne: "S \<noteq> {}" unfolding S_def by auto
  have pin: "p \<in> S" unfolding p_def using Max_in[OF fin ne] .
  have keys_ne: "vs \<noteq> []" using occ unfolding vs_def by auto
  have upper: "v \<le> int p + 1" if "v \<in> set vs" for v
  proof -
    from that obtain key where key: "key \<in> set keys" "v = lastIndexOf key args + 1"
      unfolding vs_def by auto
    show ?thesis
    proof (cases "key \<in> set args")
      case False
      then show ?thesis using key by (simp add: lastIndexOf_eq)
    next
      case True
      define q where "q = Max {i. i < length args \<and> args ! i = key}"
      have "q \<in> {i. i < length args \<and> args ! i = key}"
        unfolding q_def using True by (intro Max_in) (auto simp: in_set_conv_nth)
      then have "q \<in> S" using key(1) unfolding S_def by simp
      then have "q \<le> p" unfolding p_def using fin by simp
      moreover have "v = int q + 1" using key(2) True unfolding q_def by (simp add: lastIndexOf_eq)
      ultimately show ?thesis by simp
    qed
  qed
  have attained: "int p + 1 \<in> set vs"
  proof -
    define k where "k = args ! p"
    have kin: "k \<in> set keys" and plen: "p < length args"
      using pin unfolding S_def k_def by auto
    have kargs: "k \<in> set args" using plen unfolding k_def by simp
    define q where "q = Max {i. i < length args \<and> args ! i = k}"
    have qin: "q \<in> {i. i < length args \<and> args ! i = k}"
      unfolding q_def using kargs by (intro Max_in) (auto simp: in_set_conv_nth)
    then have "q \<in> S" using kin unfolding S_def by simp
    then have "q \<le> p" unfolding p_def using fin by simp
    moreover have "p \<le> q" unfolding q_def using plen k_def by (intro Max_ge) auto
    ultimately have "q = p" by simp
    then have "lastIndexOf k args + 1 = int p + 1"
      using kargs unfolding q_def by (simp add: lastIndexOf_eq)
    then show ?thesis unfolding vs_def using kin by force
  qed
  have "Max (set vs) = int p + 1"
    by (rule Max_eqI) (use upper attained in auto)
  then have "max_lodash vs = Some (int p + 1)"
    using max_lodash_Max[OF keys_ne] by simp
  then show ?thesis unfolding vs_def p_def S_def .
qed


lemma nth_ramda_after:
  "nth_ramda (Some (int i + 1)) xs = (if Suc i < length xs then Some (xs ! Suc i) else None)"
proof -
  have "nat (int i + 1) = Suc i" by simp
  moreover have "(int i + 1 < int (length xs)) = (Suc i < length xs)" by linarith
  ultimately show ?thesis by (simp add: Let_def)
qed

lemma occurs_iff: "(\<exists>k \<in> set keys. k \<in> set args) = (\<exists>i<length args. args ! i \<in> set keys)"
  by (metis in_set_conv_nth)

lemma parseOption_characterised:
  "parseOption keys args =
     (if \<exists>i<length args. args ! i \<in> set keys
      then (if Suc (Max {i. i < length args \<and> args ! i \<in> set keys}) < length args
            then Some (args ! Suc (Max {i. i < length args \<and> args ! i \<in> set keys}))
            else None)
      else None)"
proof (cases "\<exists>k \<in> set keys. k \<in> set args")
  case True
  have "parseOption keys args =
          nth_ramda (Some (int (Max {i. i < length args \<and> args ! i \<in> set keys}) + 1)) args"
    unfolding parseOption_def isOption_iff parseOption_position[OF True] using True by simp
  then show ?thesis
    unfolding nth_ramda_after using True occurs_iff[of keys args] by simp
next
  case False
  then have no: "\<not> (\<exists>i<length args. args ! i \<in> set keys)"
    unfolding occurs_iff .
  have "parseOption keys args = None"
    unfolding parseOption_def isOption_iff using False by simp
  then show ?thesis by (simp only: no if_False)
qed

lemma drop_disjoint_iff:
  "(set (drop n xs) \<inter> K = {}) = (\<forall>j. n \<le> j \<and> j < length xs \<longrightarrow> xs ! j \<notin> K)"
proof
  assume d: "set (drop n xs) \<inter> K = {}"
  show "\<forall>j. n \<le> j \<and> j < length xs \<longrightarrow> xs ! j \<notin> K"
  proof (intro allI impI)
    fix j assume j: "n \<le> j \<and> j < length xs"
    then have "xs ! j = drop n xs ! (j - n)" "j - n < length (drop n xs)" by auto
    then have "xs ! j \<in> set (drop n xs)" by (metis nth_mem)
    with d show "xs ! j \<notin> K" by blast
  qed
next
  assume a: "\<forall>j. n \<le> j \<and> j < length xs \<longrightarrow> xs ! j \<notin> K"
  show "set (drop n xs) \<inter> K = {}"
  proof (rule ccontr)
    assume "set (drop n xs) \<inter> K \<noteq> {}"
    then obtain x where x: "x \<in> set (drop n xs)" "x \<in> K" by blast
    then obtain m where m: "m < length (drop n xs)" "drop n xs ! m = x"
      by (auto simp: in_set_conv_nth)
    then have "n + m < length xs" "xs ! (n + m) = x" by auto
    with a x(2) show False by (metis le_add1)
  qed
qed

subsection \<open>Single-valued options\<close>

text \<open>
  Claim C1. \<open>parseOption\<close> (the spec's \<open>resolveSingle\<close>): when some spelling occurs in the
  argument vector, let \<open>p\<close> be the greatest index at which any of the spellings stands;
  the result is the token at \<open>p + 1\<close>, and it is absent when \<open>p\<close> is the last index.
  When no spelling occurs the result is absent. For the arguments
  \<open>-d a.json --diagram b.json\<close> and the spellings \<open>-d\<close>, \<open>--diagram\<close> the result is
  \<open>b.json\<close>; for the single argument \<open>-d\<close> it is absent.
\<close>

theorem parseOption_last_mention_wins:
  "parseOption keys args =
     (if \<exists>i<length args. args ! i \<in> set keys
      then (if Suc (Max {i. i < length args \<and> args ! i \<in> set keys}) < length args
            then Some (args ! Suc (Max {i. i < length args \<and> args ! i \<in> set keys}))
            else None)
      else None)
   \<and> parseOption [''-d'', ''--diagram''] [''-d'', ''a.json'', ''--diagram'', ''b.json''] = Some ''b.json''
   \<and> parseOption [''-d'', ''--diagram''] [''-d''] = None"
proof (intro conjI)
  show "parseOption keys args =
     (if \<exists>i<length args. args ! i \<in> set keys
      then (if Suc (Max {i. i < length args \<and> args ! i \<in> set keys}) < length args
            then Some (args ! Suc (Max {i. i < length args \<and> args ! i \<in> set keys}))
            else None)
      else None)"
    by (rule parseOption_characterised)
  show "parseOption [''-d'', ''--diagram''] [''-d'', ''a.json'', ''--diagram'', ''b.json''] = Some ''b.json''"
    by code_simp
  show "parseOption [''-d'', ''--diagram''] [''-d''] = None"
    by code_simp
qed

text \<open>
  Claim C8, as stated: the result of \<open>parseOption\<close> is defined if and only if some
  occurrence of a spelling has a following token. It fails for the arguments
  \<open>-d a.json -d\<close>: the first \<open>-d\<close> is followed by a token, yet the result is absent,
  because only the last occurrence is looked at. This is the second example of the
  function's own documentation.
\<close>

theorem parseOption_defined_counterexample:
  "\<not> (parseOption [''-d''] [''-d'', ''a.json'', ''-d''] \<noteq> None \<longleftrightarrow>
      (\<exists>i. Suc i < length [''-d'', ''a.json'', ''-d''] \<and> [''-d'', ''a.json'', ''-d''] ! i \<in> set [''-d'']))"
proof -
  have "parseOption [''-d''] [''-d'', ''a.json'', ''-d''] = None" by code_simp
  moreover have "Suc 0 < length [''-d'', ''a.json'', ''-d''] \<and> [''-d'', ''a.json'', ''-d''] ! 0 \<in> set [''-d'']"
    by simp
  ultimately show ?thesis by blast
qed

text \<open>
  Claim C8, amended: the result of \<open>parseOption\<close> is defined if and only if the last
  occurrence of any spelling has a following token, that is, some spelling stands at an
  index \<open>i\<close> that is not the last one and no spelling stands after \<open>i\<close>.
\<close>

theorem parseOption_defined_iff_last_occurrence_followed:
  "parseOption keys args \<noteq> None \<longleftrightarrow>
     (\<exists>i. Suc i < length args \<and> args ! i \<in> set keys \<and> set (drop (Suc i) args) \<inter> set keys = {})"
proof
  assume def: "parseOption keys args \<noteq> None"
  define S where "S = {i. i < length args \<and> args ! i \<in> set keys}"
  have ex: "\<exists>i<length args. args ! i \<in> set keys"
    using def parseOption_characterised[of keys args] by (auto split: if_splits)
  have suc: "Suc (Max S) < length args"
    using def ex parseOption_characterised[of keys args] unfolding S_def by (auto split: if_splits)
  have fin: "finite S" unfolding S_def by simp
  have ne: "S \<noteq> {}" using ex unfolding S_def by auto
  have "Max S \<in> S" using Max_in[OF fin ne] .
  then have key: "args ! Max S \<in> set keys" unfolding S_def by simp
  have "\<forall>j. Suc (Max S) \<le> j \<and> j < length args \<longrightarrow> args ! j \<notin> set keys"
  proof (intro allI impI notI)
    fix j assume j: "Suc (Max S) \<le> j \<and> j < length args" and "args ! j \<in> set keys"
    then have "j \<in> S" unfolding S_def by simp
    then have "j \<le> Max S" using fin by simp
    with j show False by simp
  qed
  then have "set (drop (Suc (Max S)) args) \<inter> set keys = {}"
    unfolding drop_disjoint_iff .
  with suc key show "\<exists>i. Suc i < length args \<and> args ! i \<in> set keys \<and> set (drop (Suc i) args) \<inter> set keys = {}"
    by blast
next
  assume "\<exists>i. Suc i < length args \<and> args ! i \<in> set keys \<and> set (drop (Suc i) args) \<inter> set keys = {}"
  then obtain i where i: "Suc i < length args" "args ! i \<in> set keys"
    and after: "\<forall>j. Suc i \<le> j \<and> j < length args \<longrightarrow> args ! j \<notin> set keys"
    unfolding drop_disjoint_iff by blast
  have "Max {i. i < length args \<and> args ! i \<in> set keys} = i"
  proof (rule Max_eqI)
    show "finite {i. i < length args \<and> args ! i \<in> set keys}" by simp
    show "i \<in> {i. i < length args \<and> args ! i \<in> set keys}" using i by simp
    fix j assume "j \<in> {i. i < length args \<and> args ! i \<in> set keys}"
    then show "j \<le> i" using after by (metis (mono_tags, lifting) mem_Collect_eq not_less_eq_eq)
  qed
  moreover have "\<exists>i<length args. args ! i \<in> set keys" using i by (metis Suc_lessD)
  ultimately have "parseOption keys args = Some (args ! Suc i)"
    using parseOption_characterised[of keys args] i(1) by simp
  then show "parseOption keys args \<noteq> None" by simp
qed

subsection \<open>Multi-valued options\<close>

lemma compact_map_concat:
  "compact (map (\<lambda>idx. nth_ramda (Some (int idx + 1)) args) is) = concat (map (following args) is)"
  by (induction "is") (simp_all add: nth_ramda_after following_def del: nth_ramda.simps)

lemma concat_map_concat: "concat (map g (concat xss)) = concat (map (\<lambda>xs. concat (map g xs)) xss)"
  by (induction xss) simp_all

lemma parseOptionsMultiple_following:
  "parseOptionsMultiple keys args =
     concat (map (\<lambda>key. concat (map (following args) (allIndicesOf key args))) keys)"
  unfolding parseOptionsMultiple_def compact_map_concat concat_map_concat map_map comp_def ..

lemma allIndicesOf_snoc:
  "allIndicesOf key (args @ [t]) = allIndicesOf key args @ (if t = key then [length args] else [])"
proof -
  have "filter (\<lambda>i. (args @ [t]) ! i = key) [0..<length args] = filter (\<lambda>i. args ! i = key) [0..<length args]"
    by (rule filter_cong) (simp_all add: nth_append)
  then show ?thesis by (simp add: allIndicesOf_def)
qed

lemma following_snoc_empty:
  "i \<le> length args \<Longrightarrow> following (args @ [[]]) i = following args i"
  by (auto simp: following_def nth_append less_Suc_eq)

lemma allIndicesOf_bound: "i \<in> set (allIndicesOf key args) \<Longrightarrow> i < length args"
  by (simp add: allIndicesOf_def)

lemma following_last: "following args (length args) = []"
  by (simp add: following_def)

lemma per_key_snoc_empty:
  "concat (map (following (args @ [[]])) (allIndicesOf key (args @ [[]])))
     = concat (map (following args) (allIndicesOf key args))"
proof -
  have m: "map (following (args @ [[]])) (allIndicesOf key args) = map (following args) (allIndicesOf key args)"
    by (rule map_cong) (use allIndicesOf_bound following_snoc_empty in \<open>auto simp: less_imp_le\<close>)
  have l: "following (args @ [[]]) (length args) = []"
    using following_snoc_empty[of "length args" args] following_last by simp
  show ?thesis unfolding allIndicesOf_snoc by (simp add: m l)
qed

text \<open>
  What \<open>parseOptionsMultiple\<close> computes, for any spellings and arguments: spelling by
  spelling, the non-empty tokens after the occurrences of the spelling, which are its
  indices in ascending order.
\<close>

lemma parseOptionsMultiple_per_spelling:
  "parseOptionsMultiple keys args =
     concat (map (\<lambda>key. concat (map (\<lambda>i. if Suc i < length args \<and> args ! Suc i \<noteq> []
                                          then [args ! Suc i] else [])
                                    (allIndicesOf key args))) keys)
   \<and> sorted (allIndicesOf k args) \<and> distinct (allIndicesOf k args)
   \<and> set (allIndicesOf k args) = {i. i < length args \<and> args ! i = k}"
proof (intro conjI)
  have "following args = (\<lambda>i. if Suc i < length args \<and> args ! Suc i \<noteq> [] then [args ! Suc i] else [])"
    by (rule ext) (simp add: following_def)
  then show "parseOptionsMultiple keys args =
     concat (map (\<lambda>key. concat (map (\<lambda>i. if Suc i < length args \<and> args ! Suc i \<noteq> []
                                          then [args ! Suc i] else [])
                                    (allIndicesOf key args))) keys)"
    using parseOptionsMultiple_following[of keys args] by simp
  show "sorted (allIndicesOf k args)"
    by (simp add: allIndicesOf_def sorted_wrt_filter)
  show "distinct (allIndicesOf k args)"
    by (simp add: allIndicesOf_def)
  show "set (allIndicesOf k args) = {i. i < length args \<and> args ! i = k}"
    by (auto simp: allIndicesOf_def)
qed

text \<open>
  Claim C7. \<open>parseOptionsMultiple\<close> (the spec's \<open>resolveAll\<close>) gives
  \<open>st1.json, st2.json, st3.json\<close> for the arguments
  \<open>-s st1.json --style st2.json -s st3.json\<close> and the spellings \<open>-s\<close>, \<open>--style\<close>, as the
  example in the documentation of the function says, and as the help text promises
  (the priority of the style files is the order in which they are given). The code
  returns \<open>st1.json, st3.json, st2.json\<close>: it lists the values spelling by spelling, so
  both values of \<open>-s\<close> come before the value of \<open>--style\<close>. In the merged style the third
  file then wins over the second: with the files of the example world the key \<open>b\<close> holds
  the \<open>3\<close> of \<open>st3.json\<close>, not the \<open>2\<close> of \<open>st2.json\<close>.
\<close>

theorem parseOptionsMultiple_interleaved_spellings:
  "parseOptionsMultiple [''-s'', ''--style'']
       [''-s'', ''st1.json'', ''--style'', ''st2.json'', ''-s'', ''st3.json'']
     = [''st1.json'', ''st3.json'', ''st2.json'']
   \<and> parseOptionsMultiple [''-s'', ''--style'']
       [''-s'', ''st1.json'', ''--style'', ''st2.json'', ''-s'', ''st3.json'']
     \<noteq> [''st1.json'', ''st2.json'', ''st3.json'']
   \<and> fst (getObjects example_env [] [''-s'', ''--style'']
            [''-s'', ''st1.json'', ''--style'', ''st2.json'', ''-s'', ''st3.json''])
     = Inr (Some (JObj [(''a'', JStr ''1''), (''c'', JObj [(''x'', JStr ''d1''), (''y'', JStr ''d2'')]),
                        (''b'', JStr ''3''), (''e'', JStr ''3'')]))
   \<and> fst (parseObjects example_env [''st1.json'', ''st2.json'', ''st3.json''])
     = Some (JObj [(''a'', JStr ''1''), (''c'', JObj [(''x'', JStr ''d1''), (''y'', JStr ''d2'')]),
                   (''b'', JStr ''2''), (''e'', JStr ''3'')])"
  by code_simp

lemma set_allIndicesOf: "set (allIndicesOf key args) = {i. i < length args \<and> args ! i = key}"
  by (auto simp: allIndicesOf_def)

lemma set_following:
  "set (following args i) = {t. t \<noteq> [] \<and> Suc i < length args \<and> args ! Suc i = t}"
  by (auto simp: following_def)

text \<open>
  Claim C10. No string returned by \<open>parseOptionsMultiple\<close> is empty: the strings of the
  result are exactly the non-empty tokens that follow an occurrence of a spelling. An
  occurrence followed by the empty string is dropped as one that nothing follows:
  putting an empty string after the last token of the argument vector changes nothing
  in the result.
\<close>

theorem parseOptionsMultiple_drops_empty:
  "[] \<notin> set (parseOptionsMultiple keys args)
   \<and> set (parseOptionsMultiple keys args)
       = {t. t \<noteq> [] \<and> (\<exists>i. Suc i < length args \<and> args ! i \<in> set keys \<and> args ! Suc i = t)}
   \<and> parseOptionsMultiple keys (args @ [[]]) = parseOptionsMultiple keys args"
proof (intro conjI)
  show "[] \<notin> set (parseOptionsMultiple keys args)"
    unfolding parseOptionsMultiple_following by (auto simp: following_def)
  show "set (parseOptionsMultiple keys args)
       = {t. t \<noteq> [] \<and> (\<exists>i. Suc i < length args \<and> args ! i \<in> set keys \<and> args ! Suc i = t)}"
  proof -
    have "set (parseOptionsMultiple keys args)
            = (\<Union>key \<in> set keys. \<Union>i \<in> {i. i < length args \<and> args ! i = key}. set (following args i))"
      unfolding parseOptionsMultiple_following by (simp add: set_allIndicesOf)
    also have "\<dots> = {t. t \<noteq> [] \<and> (\<exists>i. Suc i < length args \<and> args ! i \<in> set keys \<and> args ! Suc i = t)}"
      unfolding set_following by (auto intro: Suc_lessD)
    finally show ?thesis .
  qed
  show "parseOptionsMultiple keys (args @ [[]]) = parseOptionsMultiple keys args"
    unfolding parseOptionsMultiple_following per_key_snoc_empty ..
qed

section \<open>Properties of the documents\<close>

subsection \<open>Lookup in a merge\<close>



lemma keys_filter_key:
  "map fst (filter (\<lambda>(k, v). P k) r) = filter P (map fst r)"
  by (induction r) auto

lemma keys_map_entry: "map fst (map (\<lambda>(k, v). (k, f k v)) l) = map fst l"
  by (induction l) auto

lemma merge_obj_entries:
  "entries (Some (mergeDeepLeft_obj (JObj l) (JObj r))) =
     filter (\<lambda>(k, v). k \<noteq> ''__proto__'')
       (map (\<lambda>(k, lVal). (k, case map_of r k of
                                None \<Rightarrow> lVal
                              | Some rVal \<Rightarrow> if isObject lVal \<and> isObject rVal
                                             then mergeDeepLeft_obj lVal rVal else lVal)) l)
     @ filter (\<lambda>(k, v). k \<noteq> ''__proto__'')
         (filter (\<lambda>(k, v). k \<notin> set (filter (\<lambda>k. k \<noteq> ''__proto__'') (map fst l))) r)"
  unfolding mergeDeepLeft_obj.simps Let_def entries.simps keys_filter_key keys_map_entry ..



lemma merge_obj_distinct:
  "distinct (map fst l) \<Longrightarrow> distinct (map fst r) \<Longrightarrow>
   distinct (map fst (entries (Some (mergeDeepLeft_obj (JObj l) (JObj r)))))"
  unfolding merge_obj_entries map_append keys_filter_key keys_map_entry by auto


subsection \<open>The fold over the files\<close>


lemma isNil_object: "isObject v \<Longrightarrow> \<not> isNil (Some v)"
  by (cases v) simp_all










lemma reducer_failure:
  "readJSON e p = Inl err \<Longrightarrow> reducer e (obj, printed) p = (obj, printed @ [diagnostic err p])"
  by (simp add: reducer_def)

lemma reducer_merge_throws:
  "readJSON e p = Inr v \<Longrightarrow> mergeDeepLeft obj (Some v) = Inl err \<Longrightarrow>
   reducer e (obj, printed) p = (obj, printed @ [diagnostic err p])"
  by (simp add: reducer_def)



















lemma missing_not_read: "files e p = None \<Longrightarrow>
   readJSON e p = Inl (Error ''Error'' (''ENOENT: no such file or directory, open '' @ quoted p))"
  by (simp add: readJSON_def readFileSync_def)













subsection \<open>Deep merge\<close>



subsection \<open>Merging a list of files\<close>




subsection \<open>A file that does not exist\<close>

text \<open>
  Claim C4, as stated: for a path whose file does not exist \<open>parseObject\<close> returns absent
  and prints nothing, and so does the fold of \<open>parseObjects\<close>. Neither function tests
  for the file: the read throws \<open>ENOENT\<close>, and the handler prints it as it prints any
  other error.
\<close>

theorem parseObject_missing_file_counterexample:
  "files example_env ''nothing.json'' = None
   \<and> parseObject example_env ''nothing.json''
       = (None, [''Error: ENOENT: no such file or directory, open '' @ quoted ''nothing.json''
                 @ ''. <File: '' @ quoted ''nothing.json'' @ ''>''])
   \<and> parseObjects example_env [''nothing.json'']
       = (None, [''Error: ENOENT: no such file or directory, open '' @ quoted ''nothing.json''
                 @ ''. <File: '' @ quoted ''nothing.json'' @ ''>''])"
  by code_simp

text \<open>
  Claim C4, amended: for a path whose file does not exist \<open>parseObject\<close> returns absent
  and prints one diagnostic, that of the \<open>ENOENT\<close> error of the read, which names the
  path; a missing file met by the fold of \<open>parseObjects\<close> prints the same diagnostic and
  leaves the accumulator as it was. A missing file is silent only behind the test for
  existence of \<open>getDefaultObject\<close> and \<open>getDefaultObjects\<close>.
\<close>

theorem parseObject_missing_file_diagnosed:
  "files e p = None \<Longrightarrow>
     parseObject e p
       = (None, [diagnostic (Error ''Error'' (''ENOENT: no such file or directory, open '' @ quoted p)) p])
     \<and> reducer e (obj, printed) p
       = (obj, printed @ [diagnostic (Error ''Error'' (''ENOENT: no such file or directory, open '' @ quoted p)) p])
     \<and> getDefaultObject e (Some p) = (None, [])
     \<and> getDefaultObjects e [Some p] = (None, [])"
proof (intro conjI)
  assume missing: "files e p = None"
  show "parseObject e p
       = (None, [diagnostic (Error ''Error'' (''ENOENT: no such file or directory, open '' @ quoted p)) p])"
    using missing by (simp add: parseObject_def missing_not_read)
  show "reducer e (obj, printed) p
       = (obj, printed @ [diagnostic (Error ''Error'' (''ENOENT: no such file or directory, open '' @ quoted p)) p])"
    using missing by (simp add: reducer_failure missing_not_read)
  show "getDefaultObject e (Some p) = (None, [])"
    using missing by simp
  show "getDefaultObjects e [Some p] = (None, [])"
    using missing by (simp add: getDefaultObjects_def parseObjects_def)
qed

theorem parseObject_missing_file_diagnosed_witness:
  "files example_env ''nothing.json'' = None
   \<and> parseObject example_env ''nothing.json''
       = (None, [diagnostic (Error ''Error'' (''ENOENT: no such file or directory, open '' @ quoted ''nothing.json'')) ''nothing.json''])
   \<and> reducer example_env (Some (JObj []), []) ''nothing.json''
       = (Some (JObj []), [diagnostic (Error ''Error'' (''ENOENT: no such file or directory, open '' @ quoted ''nothing.json'')) ''nothing.json''])
   \<and> getDefaultObject example_env (Some ''nothing.json'') = (None, [])
   \<and> getDefaultObjects example_env [Some ''nothing.json''] = (None, [])"
proof -
  have missing: "files example_env ''nothing.json'' = None"
    by code_simp
  show ?thesis
    using parseObject_missing_file_diagnosed[OF missing, of "Some (JObj [])" "[]"] missing by simp
qed

subsection \<open>One file over a default\<close>

text \<open>
  Claim C5. \<open>getObjectOverDefault\<close>: when \<open>parseOption\<close> gives a path, that file is
  loaded, and when the load gives absent (or \<open>null\<close>) the default file is loaded by
  \<open>getDefaultObject\<close> instead, after the diagnostics of the first load; a document that
  is not nil is the result. When no path was given the default file is loaded directly.
  \<open>getDefaultObject\<close> tests for existence first: for a default file that does not exist
  it returns absent and prints nothing, and for one that exists it is \<open>parseObject\<close>.
\<close>

theorem getObjectOverDefault_falls_back:
  "(parseOption keys args = Some p \<and>
      (fst (parseObject e p) = None \<or> fst (parseObject e p) = Some JNull) \<longrightarrow>
        getObjectOverDefault e d keys args
          = (fst (getDefaultObject e d), snd (parseObject e p) @ snd (getDefaultObject e d)))
   \<and> (parseOption keys args = Some p \<and> fst (parseObject e p) = Some v \<and> v \<noteq> JNull \<longrightarrow>
        getObjectOverDefault e d keys args = parseObject e p)
   \<and> (parseOption keys args = None \<longrightarrow> getObjectOverDefault e d keys args = getDefaultObject e d)
   \<and> (\<not> existsSync e d \<longrightarrow> getDefaultObject e d = (None, []))
   \<and> (existsSync e (Some q) \<longrightarrow> getDefaultObject e (Some q) = parseObject e q)"
proof (intro conjI impI)
  show "getObjectOverDefault e d keys args
          = (fst (getDefaultObject e d), snd (parseObject e p) @ snd (getDefaultObject e d))"
    if "parseOption keys args = Some p \<and>
      (fst (parseObject e p) = None \<or> fst (parseObject e p) = Some JNull)"
  proof -
    obtain obj printed where po: "parseObject e p = (obj, printed)" by (cases "parseObject e p")
    obtain dv printed' where gd: "getDefaultObject e d = (dv, printed')" by (cases "getDefaultObject e d")
    have "isNil obj" using that po by auto
    then show ?thesis using that by (simp add: getObjectOverDefault_def po gd)
  qed
  show "getObjectOverDefault e d keys args = parseObject e p"
    if "parseOption keys args = Some p \<and> fst (parseObject e p) = Some v \<and> v \<noteq> JNull"
  proof -
    obtain obj printed where po: "parseObject e p = (obj, printed)" by (cases "parseObject e p")
    have "\<not> isNil obj" using that po by (cases v) simp_all
    then show ?thesis using that by (simp add: getObjectOverDefault_def po)
  qed
  show "getObjectOverDefault e d keys args = getDefaultObject e d" if "parseOption keys args = None"
    using that by (simp add: getObjectOverDefault_def)
  show "getDefaultObject e d = (None, [])" if "\<not> existsSync e d"
    using that by (cases d) simp_all
  show "getDefaultObject e (Some q) = parseObject e q" if "existsSync e (Some q)"
    using that by simp
qed

theorem getObjectOverDefault_falls_back_witness:
  "parseOption [''-c'', ''--config''] [''-c'', ''bad.json''] = Some ''bad.json''
   \<and> fst (parseObject example_env ''bad.json'') = None
   \<and> getObjectOverDefault example_env (Some ''mathjax_config.json'') [''-c'', ''--config''] [''-c'', ''bad.json'']
       = (Some (JObj [(''tex'', JObj [])]),
          [diagnostic (Error ''SyntaxError'' ''Unexpected end of JSON input'') ''bad.json''])
   \<and> parseOption [''-c'', ''--config''] [''--config'', ''st1.json''] = Some ''st1.json''
   \<and> getObjectOverDefault example_env (Some ''mathjax_config.json'') [''-c'', ''--config''] [''--config'', ''st1.json'']
       = (Some (JObj [(''a'', JStr ''1''), (''c'', JObj [(''x'', JStr ''d1'')])]), [])
   \<and> parseOption [''-c'', ''--config''] [''-d'', ''diagram.json''] = None
   \<and> getObjectOverDefault example_env (Some ''mathjax_config.json'') [''-c'', ''--config''] [''-d'', ''diagram.json'']
       = (Some (JObj [(''tex'', JObj [])]), [])
   \<and> \<not> existsSync example_env (Some ''nothing.json'')
   \<and> getDefaultObject example_env (Some ''nothing.json'') = (None, [])
   \<and> existsSync example_env (Some ''bad.json'')
   \<and> getDefaultObject example_env (Some ''bad.json'')
       = (None, [diagnostic (Error ''SyntaxError'' ''Unexpected end of JSON input'') ''bad.json''])"
proof -
  have o1: "parseOption [''-c'', ''--config''] [''-c'', ''bad.json''] = Some ''bad.json''"
    by code_simp
  have bad: "parseObject example_env ''bad.json''
       = (None, [diagnostic (Error ''SyntaxError'' ''Unexpected end of JSON input'') ''bad.json''])"
    by code_simp
  have dflt: "getDefaultObject example_env (Some ''mathjax_config.json'') = (Some (JObj [(''tex'', JObj [])]), [])"
    by code_simp
  have o2: "parseOption [''-c'', ''--config''] [''--config'', ''st1.json''] = Some ''st1.json''"
    by code_simp
  have st1: "parseObject example_env ''st1.json''
       = (Some (JObj [(''a'', JStr ''1''), (''c'', JObj [(''x'', JStr ''d1'')])]), [])"
    by code_simp
  have o3: "parseOption [''-c'', ''--config''] [''-d'', ''diagram.json''] = None"
    by code_simp
  have ne: "\<not> existsSync example_env (Some ''nothing.json'')"
    by code_simp
  have ex: "existsSync example_env (Some ''bad.json'')"
    by code_simp
  note fb = getObjectOverDefault_falls_back
  show ?thesis
    using fb[where keys="[''-c'', ''--config'']" and args="[''-c'', ''bad.json'']" and p="''bad.json''"
            and e=example_env and d="Some ''mathjax_config.json''" and v=JNull and q="''bad.json''"]
          fb[where keys="[''-c'', ''--config'']" and args="[''--config'', ''st1.json'']" and p="''st1.json''"
            and e=example_env and d="Some ''mathjax_config.json''"
            and v="JObj [(''a'', JStr ''1''), (''c'', JObj [(''x'', JStr ''d1'')])]" and q="''bad.json''"]
          fb[where keys="[''-c'', ''--config'']" and args="[''-d'', ''diagram.json'']" and p="''bad.json''"
            and e=example_env and d="Some ''mathjax_config.json''" and v=JNull and q="''bad.json''"]
          fb[where keys="[]" and args="[]" and p="''bad.json''"
            and e=example_env and d="Some ''nothing.json''" and v=JNull and q="''bad.json''"]
    by (simp add: o1 o2 o3 bad dflt st1 ne ex del: existsSync.simps getDefaultObject.simps)
qed

subsection \<open>The styles over the default styles\<close>



subsection \<open>A write that fails\<close>

text \<open>
  Claim C9, as stated: when the write of the output file fails and \<open>-w\<close>/\<open>--write\<close> was
  given together with \<open>-o\<close>/\<open>--output\<close>, the rendered SVG is still printed to the console.
  For the arguments \<open>-d diagram.json -o out.svg -w\<close>, which \<open>applyCommands\<close> hands to
  \<open>diagram\<close>, and a path that cannot be written, the only line printed is the diagnostic
  of the write: \<open>R.cond\<close> runs the branch of \<open>-o\<close> and never reaches the branch of \<open>-w\<close>.
\<close>

theorem diagram_then_write_counterexample:
  "applyCommands [''-d'', ''diagram.json'', ''-o'', ''out.svg'', ''-w''] = Diagram
   \<and> isOption [''-o'', ''--output''] [''-d'', ''diagram.json'', ''-o'', ''out.svg'', ''-w'']
   \<and> isOption [''-w'', ''--write''] [''-d'', ''diagram.json'', ''-o'', ''out.svg'', ''-w'']
   \<and> parseOption [''-o'', ''--output''] [''-d'', ''diagram.json'', ''-o'', ''out.svg'', ''-w''] = Some ''out.svg''
   \<and> unwritable example_env ''out.svg''
       = Some (BeforeOpen (Error ''Error'' (''EACCES: permission denied, open '' @ quoted ''out.svg'')))
   \<and> snd (diagram_then example_env [''-d'', ''diagram.json'', ''-o'', ''out.svg'', ''-w''] ''<svg/>'')
       = [''Error: EACCES: permission denied, open '' @ quoted ''out.svg'' @ ''. Diagram was not generated.'']
   \<and> ''<svg/>'' \<notin> set (snd (diagram_then example_env [''-d'', ''diagram.json'', ''-o'', ''out.svg'', ''-w'']
                                 ''<svg/>''))"
  by code_simp

text \<open>
  Claim C9, amended: when writing the output file fails, the failure is diagnosed to the
  operator, in the line \<open>name: message. Diagram was not generated.\<close>, and does not affect
  the rendering result (the text of the diagram is an argument of the callback, which the
  write does not change). But when \<open>-w\<close>/\<open>--write\<close> is given together with
  \<open>-o\<close>/\<open>--output\<close>, the rendered SVG is not printed to the console, whether the write fails
  or not: the diagnostic of a failed write is all that is printed. The SVG is printed when
  \<open>-w\<close>/\<open>--write\<close> is given and \<open>-o\<close>/\<open>--output\<close> is not.
\<close>

theorem diagram_then_output_before_write:
  "((''-o'' \<in> set args \<or> ''--output'' \<in> set args) \<and>
      fst (writeFileSync e (parseOption [''-o'', ''--output''] args) svg) = Some err \<longrightarrow>
        snd (diagram_then e args svg)
          = [err_name err @ '': '' @ err_message err @ ''. Diagram was not generated.''])
   \<and> ((''-o'' \<in> set args \<or> ''--output'' \<in> set args) \<and>
      fst (writeFileSync e (parseOption [''-o'', ''--output''] args) svg) = None \<longrightarrow>
        snd (diagram_then e args svg) = [])
   \<and> (''-o'' \<notin> set args \<and> ''--output'' \<notin> set args \<and> (''-w'' \<in> set args \<or> ''--write'' \<in> set args) \<longrightarrow>
        diagram_then e args svg = (e, [svg]))
   \<and> (''-o'' \<notin> set args \<and> ''--output'' \<notin> set args \<and> ''-w'' \<notin> set args \<and> ''--write'' \<notin> set args \<longrightarrow>
        diagram_then e args svg = (e, []))"
proof -
  have o: "isOption [''-o'', ''--output''] args = (''-o'' \<in> set args \<or> ''--output'' \<in> set args)"
    unfolding isOption_iff by simp
  have w: "isOption [''-w'', ''--write''] args = (''-w'' \<in> set args \<or> ''--write'' \<in> set args)"
    unfolding isOption_iff by simp
  obtain thrown e' where wr: "writeFileSync e (parseOption [''-o'', ''--output''] args) svg = (thrown, e')"
    by (cases "writeFileSync e (parseOption [''-o'', ''--output''] args) svg")
  have failed: "snd (output_svg e args svg)
      = [err_name err @ '': '' @ err_message err @ ''. Diagram was not generated.'']"
    if "thrown = Some err"
    using that by (simp add: output_svg_def wr)
  have written: "snd (output_svg e args svg) = []" if "thrown = None"
    using that by (simp add: output_svg_def wr)
  show ?thesis
    unfolding diagram_then_def o w using failed written by (simp add: wr)
qed

theorem diagram_then_output_before_write_witness:
  "''-o'' \<in> set [''-d'', ''diagram.json'', ''-o'', ''out.svg'', ''-w'']
   \<and> fst (writeFileSync example_env
            (parseOption [''-o'', ''--output''] [''-d'', ''diagram.json'', ''-o'', ''out.svg'', ''-w'']) ''<svg/>'')
       = Some (Error ''Error'' (''EACCES: permission denied, open '' @ quoted ''out.svg''))
   \<and> snd (diagram_then example_env [''-d'', ''diagram.json'', ''-o'', ''out.svg'', ''-w''] ''<svg/>'')
       = [''Error: '' @ (''EACCES: permission denied, open '' @ quoted ''out.svg'')
          @ ''. Diagram was not generated.'']
   \<and> ''--output'' \<in> set [''-d'', ''diagram.json'', ''--output'', ''b.svg'', ''-w'']
   \<and> fst (writeFileSync example_env
            (parseOption [''-o'', ''--output''] [''-d'', ''diagram.json'', ''--output'', ''b.svg'', ''-w'']) ''<svg/>'')
       = None
   \<and> snd (diagram_then example_env [''-d'', ''diagram.json'', ''--output'', ''b.svg'', ''-w''] ''<svg/>'') = []
   \<and> fst (writeFileSync example_env
            (parseOption [''-o'', ''--output''] [''-d'', ''diagram.json'', ''-o'', ''full.svg'', ''-w'']) ''<svg/>'')
       = Some (Error ''Error'' ''ENOSPC: no space left on device, write'')
   \<and> snd (diagram_then example_env [''-d'', ''diagram.json'', ''-o'', ''full.svg'', ''-w''] ''<svg/>'')
       = [''Error: ENOSPC: no space left on device, write. Diagram was not generated.'']
   \<and> ''-w'' \<in> set [''-d'', ''diagram.json'', ''-w'']
   \<and> diagram_then example_env [''-d'', ''diagram.json'', ''-w''] ''<svg/>'' = (example_env, [''<svg/>''])
   \<and> diagram_then example_env [''-d'', ''diagram.json''] ''<svg/>'' = (example_env, [])"
proof -
  have o1: "parseOption [''-o'', ''--output''] [''-d'', ''diagram.json'', ''-o'', ''out.svg'', ''-w''] = Some ''out.svg''"
    by code_simp
  have o2: "parseOption [''-o'', ''--output''] [''-d'', ''diagram.json'', ''--output'', ''b.svg'', ''-w''] = Some ''b.svg''"
    by code_simp
  have w1: "fst (writeFileSync example_env (Some ''out.svg'') ''<svg/>'')
       = Some (Error ''Error'' (''EACCES: permission denied, open '' @ quoted ''out.svg''))"
    by (simp add: writeFileSync_def example_env_def)
  have w2: "fst (writeFileSync example_env (Some ''b.svg'') ''<svg/>'') = None"
    by (simp add: writeFileSync_def example_env_def)
  have o3: "parseOption [''-o'', ''--output''] [''-d'', ''diagram.json'', ''-o'', ''full.svg'', ''-w''] = Some ''full.svg''"
    by code_simp
  have w3: "fst (writeFileSync example_env (Some ''full.svg'') ''<svg/>'')
       = Some (Error ''Error'' ''ENOSPC: no space left on device, write'')"
    by (simp add: writeFileSync_def example_env_def)
  note t = diagram_then_output_before_write
  show ?thesis
    using t[where e=example_env and args="[''-d'', ''diagram.json'', ''-o'', ''out.svg'', ''-w'']"
            and svg="''<svg/>''"
            and err="Error ''Error'' (''EACCES: permission denied, open '' @ quoted ''out.svg'')"]
          t[where e=example_env and args="[''-d'', ''diagram.json'', ''--output'', ''b.svg'', ''-w'']"
            and svg="''<svg/>''" and err="Error [] []"]
          t[where e=example_env and args="[''-d'', ''diagram.json'', ''-o'', ''full.svg'', ''-w'']"
            and svg="''<svg/>''" and err="Error ''Error'' ''ENOSPC: no space left on device, write''"]
          t[where e=example_env and args="[''-d'', ''diagram.json'', ''-w'']" and svg="''<svg/>''"
            and err="Error [] []"]
          t[where e=example_env and args="[''-d'', ''diagram.json'']" and svg="''<svg/>''"
            and err="Error [] []"]
    by (simp add: o1 o2 o3 w1 w2 w3)
qed

end
